theory Spec2Isabelle
  imports Main "HOL-Library.Char_ord" "HOL-Library.List_Lexorder"
begin

section \<open>HappyStore: a key-value store over one SQLite table\<close>

text \<open>
  The module \<^verbatim>\<open>happystore.py\<close> keeps its entries in one SQLite table
  \<^verbatim>\<open>database(key TEXT PRIMARY KEY, value BLOB)\<close> and drives it with a handful of SQL
  statements. The theory embeds the Python methods of \<^verbatim>\<open>_SqlLiteHappyStore\<close> one by
  one; each SQL statement the methods issue is a function on the state of the connection,
  following the SQLite documentation of that statement.

  Keys are Python strings. They are modelled as \<open>string\<close>, one \<open>char\<close> per code
  point (the code points below 256), ordered lexicographically, which is the order of
  SQLite's default BINARY collation on their UTF-8 encoding. Values in the table are byte
  strings. The store is used by one thread: the re-entrant lock \<^verbatim>\<open>_txn_rlock\<close> never
  blocks its owner and has no counterpart in the model. The connection is open and within
  SQLite's limits (no statement is too long, the lock on the file is free); \<^verbatim>\<open>close\<close> is
  not modelled.
\<close>

type_synonym key = string
type_synonym bytes = "char list"
type_synonym table = "(key \<times> bytes) list"

subsection \<open>Exceptions\<close>

text \<open>
  The exceptions of the module and the built-in ones its code can raise. All of them derive
  from Python's \<^verbatim>\<open>Exception\<close>. \<open>OperationalError\<close> is \<^verbatim>\<open>sqlite3.OperationalError\<close>;
  \<open>OtherException\<close> stands for any exception of the caller's own.
\<close>

datatype exn =
    AbortionError
  | SerializationError
  | DeserializationError
  | LookupError key
  | TypeError
  | RuntimeError
  | NameError
  | UnboundLocalError
  | IndexError
  | OperationalError
  | OtherException string

subsection \<open>Serializers\<close>

text \<open>
  A serializer is an object with two methods. \<open>deserialize\<close> is handed whatever the store
  read: a byte string, or Python's \<^verbatim>\<open>None\<close> (the argument \<open>None\<close>) on the one path where
  \<^verbatim>\<open>_ensure_execution_in_txn\<close> falls off its end.
\<close>

record 'v serializer =
  serialize :: "'v \<Rightarrow> exn + bytes"
  deserialize :: "bytes option \<Rightarrow> exn + 'v"

text \<open>Python objects, as far as \<^verbatim>\<open>RawSerializer\<close> tells them apart by \<^verbatim>\<open>type(...)\<close>.\<close>

datatype pytype = T_NoneType | T_bool | T_int | T_str | T_bytes | T_list | T_type

datatype pyval =
    PyNone
  | PyBool bool
  | PyInt int
  | PyStr string
  | PyBytes bytes
  | PyList "pyval list"
  | PyClass pytype

fun py_type :: "pyval \<Rightarrow> pytype" where
  "py_type PyNone = T_NoneType"
| "py_type (PyBool b) = T_bool"
| "py_type (PyInt i) = T_int"
| "py_type (PyStr s) = T_str"
| "py_type (PyBytes b) = T_bytes"
| "py_type (PyList xs) = T_list"
| "py_type (PyClass c) = T_type"

text \<open>
  \<^verbatim>\<open>RawSerializer.serialize(value)\<close>: \<^verbatim>\<open>if type(value) is bytes: return value\<close>, else raise
  \<^verbatim>\<open>SerializationError\<close>.
\<close>

definition RawSerializer_serialize :: "pyval \<Rightarrow> exn + bytes" where
  "RawSerializer_serialize v =
     (case v of PyBytes b \<Rightarrow> (if py_type v = T_bytes then Inr b else Inl SerializationError)
              | _ \<Rightarrow> Inl SerializationError)"

text \<open>
  \<^verbatim>\<open>RawSerializer.deserialize(bytess)\<close>: the test is \<^verbatim>\<open>type(bytes) is bytes\<close>, on the
  built-in class \<^verbatim>\<open>bytes\<close> and not on the parameter \<^verbatim>\<open>bytess\<close>; the class of a class
  is \<^verbatim>\<open>type\<close>. The branch taken raises \<^verbatim>\<open>SerializationError\<close>; the other one would
  read the unbound name \<^verbatim>\<open>value\<close>.
\<close>

definition RawSerializer_deserialize :: "bytes option \<Rightarrow> exn + pyval" where
  "RawSerializer_deserialize bytess =
     (if py_type (PyClass T_bytes) = T_bytes then Inl NameError else Inl SerializationError)"

definition RawSerializer :: "pyval serializer" where
  "RawSerializer = \<lparr>serialize = RawSerializer_serialize, deserialize = RawSerializer_deserialize\<rparr>"

subsection \<open>The SQLite connection\<close>

text \<open>
  The state of the one connection the store holds, as far as the statements of the module
  can observe it. \<open>rows\<close> is the content of the table \<^verbatim>\<open>database\<close> as the connection
  sees it; \<open>txn_begin\<close> is the content at the start of the open transaction (\<open>None\<close>
  in autocommit mode); \<open>savepoints\<close> is the stack of savepoints, most recent first, each
  with the content of the table when it was set. Every savepoint of the module has the
  same name, \<^verbatim>\<open>txn\<close>, so a name always denotes the most recent one.
  \<open>opened_by_savepoint\<close> records that the transaction was opened by a \<^verbatim>\<open>SAVEPOINT\<close> in
  autocommit mode, whose \<^verbatim>\<open>RELEASE\<close> commits.
\<close>

record connection =
  rows :: table
  txn_begin :: "table option"
  savepoints :: "table list"
  opened_by_savepoint :: bool

text \<open>\<^verbatim>\<open>BEGIN EXCLUSIVE TRANSACTION\<close>: an error inside a transaction.\<close>

definition sql_begin_exclusive :: "connection \<Rightarrow> exn + connection" where
  "sql_begin_exclusive c =
     (case txn_begin c of
        Some t \<Rightarrow> Inl OperationalError
      | None \<Rightarrow> Inr (c\<lparr>txn_begin := Some (rows c)\<rparr>))"

text \<open>
  \<^verbatim>\<open>SAVEPOINT txn\<close>: pushes a savepoint; in autocommit mode it opens the transaction
  as well.
\<close>

definition sql_savepoint_txn :: "connection \<Rightarrow> exn + connection" where
  "sql_savepoint_txn c =
     (case txn_begin c of
        Some t \<Rightarrow> Inr (c\<lparr>savepoints := rows c # savepoints c\<rparr>)
      | None \<Rightarrow> Inr (c\<lparr>txn_begin := Some (rows c), savepoints := [rows c],
                         opened_by_savepoint := True\<rparr>))"

text \<open>
  \<^verbatim>\<open>ROLLBACK TO txn\<close>: the table goes back to its content at the most recent savepoint
  named \<^verbatim>\<open>txn\<close>. The savepoint itself stays on the stack (SQLite: the command "does not
  cancel the transaction", it "restarts the transaction again at the beginning"); only
  \<^verbatim>\<open>RELEASE\<close> removes it. Without a savepoint of that name the statement is an error.
\<close>

definition sql_rollback_to_txn :: "connection \<Rightarrow> exn + connection" where
  "sql_rollback_to_txn c =
     (case savepoints c of
        [] \<Rightarrow> Inl OperationalError
      | t # older \<Rightarrow> Inr (c\<lparr>rows := t\<rparr>))"

text \<open>
  \<^verbatim>\<open>RELEASE SAVEPOINT txn\<close>: removes the most recent savepoint named \<^verbatim>\<open>txn\<close> and keeps
  the changes; releasing the outermost savepoint of a transaction that a savepoint opened
  commits it.
\<close>

definition sql_release_savepoint_txn :: "connection \<Rightarrow> exn + connection" where
  "sql_release_savepoint_txn c =
     (case savepoints c of
        [] \<Rightarrow> Inl OperationalError
      | t # older \<Rightarrow>
          (if older = [] \<and> opened_by_savepoint c
           then Inr (c\<lparr>txn_begin := None, savepoints := [], opened_by_savepoint := False\<rparr>)
           else Inr (c\<lparr>savepoints := older\<rparr>)))"

text \<open>\<^verbatim>\<open>ROLLBACK\<close>: undoes the whole transaction; an error in autocommit mode.\<close>

definition sql_rollback :: "connection \<Rightarrow> exn + connection" where
  "sql_rollback c =
     (case txn_begin c of
        None \<Rightarrow> Inl OperationalError
      | Some t \<Rightarrow> Inr (c\<lparr>rows := t, txn_begin := None, savepoints := [],
                           opened_by_savepoint := False\<rparr>))"

text \<open>\<^verbatim>\<open>COMMIT\<close>: keeps the changes and ends the transaction; an error in autocommit mode.\<close>

definition sql_commit :: "connection \<Rightarrow> exn + connection" where
  "sql_commit c =
     (case txn_begin c of
        None \<Rightarrow> Inl OperationalError
      | Some t \<Rightarrow> Inr (c\<lparr>txn_begin := None, savepoints := [], opened_by_savepoint := False\<rparr>))"

text \<open>
  The connection is opened with \<^verbatim>\<open>isolation_level='EXCLUSIVE'\<close>: before a statement that
  modifies the table, Python's \<^verbatim>\<open>sqlite3\<close> opens a transaction when none is open.
\<close>

definition implicit_begin :: "connection \<Rightarrow> connection" where
  "implicit_begin c =
     (case txn_begin c of Some t \<Rightarrow> c | None \<Rightarrow> c\<lparr>txn_begin := Some (rows c)\<rparr>)"

text \<open>
  \<^verbatim>\<open>REPLACE INTO database VALUES (?, ?), ..., (?, ?)\<close>, one \<^verbatim>\<open>(?, ?)\<close> per pair. A row
  with the key of the new row is deleted before the new row is inserted (the key is the
  primary key). With no pair at all the text ends after \<^verbatim>\<open>VALUES\<close>, which SQLite refuses
  to compile.
\<close>

definition replace_row :: "key \<times> bytes \<Rightarrow> table \<Rightarrow> table" where
  "replace_row kv t = filter (\<lambda>r. fst r \<noteq> fst kv) t @ [kv]"

definition sql_replace_into :: "(key \<times> bytes) list \<Rightarrow> connection \<Rightarrow> exn + connection" where
  "sql_replace_into key_value_pairs c =
     (if key_value_pairs = [] then Inl OperationalError
      else Inr ((implicit_begin c)\<lparr>rows := fold replace_row key_value_pairs (rows c)\<rparr>))"

text \<open>\<^verbatim>\<open>SELECT value FROM database WHERE key = ?\<close>\<close>

definition sql_select_value :: "key \<Rightarrow> connection \<Rightarrow> bytes list" where
  "sql_select_value k c = map snd (filter (\<lambda>r. fst r = k) (rows c))"

text \<open>\<^verbatim>\<open>SELECT 1 FROM database WHERE key = ? LIMIT 1\<close>\<close>

definition sql_select_1 :: "key \<Rightarrow> connection \<Rightarrow> nat list" where
  "sql_select_1 k c = take 1 (map (\<lambda>r. 1) (filter (\<lambda>r. fst r = k) (rows c)))"

text \<open>\<^verbatim>\<open>SELECT key, value FROM database WHERE key IN (?, ..., ?)\<close>\<close>

definition sql_select_in :: "key list \<Rightarrow> connection \<Rightarrow> table" where
  "sql_select_in keys c = filter (\<lambda>r. fst r \<in> set keys) (rows c)"

text \<open>\<^verbatim>\<open>DELETE FROM database WHERE key = ?\<close>, with the cursor's \<^verbatim>\<open>rowcount\<close>.\<close>

definition sql_delete :: "key \<Rightarrow> connection \<Rightarrow> nat \<times> connection" where
  "sql_delete k c =
     (length (filter (\<lambda>r. fst r = k) (rows c)),
      (implicit_begin c)\<lparr>rows := filter (\<lambda>r. fst r \<noteq> k) (rows c)\<rparr>)"

text \<open>\<^verbatim>\<open>DELETE FROM database WHERE key IN (?, ..., ?)\<close>\<close>

definition sql_delete_in :: "key list \<Rightarrow> connection \<Rightarrow> connection" where
  "sql_delete_in keys c = (implicit_begin c)\<lparr>rows := filter (\<lambda>r. fst r \<notin> set keys) (rows c)\<rparr>"

text \<open>\<^verbatim>\<open>LIMIT ?\<close>: a negative limit is no limit.\<close>

definition sql_limit :: "int option \<Rightarrow> 'a list \<Rightarrow> 'a list" where
  "sql_limit limit xs =
     (case limit of None \<Rightarrow> xs | Some n \<Rightarrow> (if n < 0 then xs else take (nat n) xs))"

text \<open>
  \<^verbatim>\<open>SELECT key, value FROM database WHERE ... ORDER BY key [ASC | DESC] [LIMIT ?]\<close>, for a
  condition on the key.
\<close>

definition sql_select_ordered ::
  "(key \<Rightarrow> bool) \<Rightarrow> bool \<Rightarrow> int option \<Rightarrow> connection \<Rightarrow> table" where
  "sql_select_ordered cond descending limit c =
     (let found = sort_key fst (filter (\<lambda>r. cond (fst r)) (rows c))
      in sql_limit limit (if descending then rev found else found))"

text \<open>
  SQLite's \<^verbatim>\<open>LIKE\<close>, pattern first: \<^verbatim>\<open>%\<close> matches any run of characters, \<^verbatim>\<open>_\<close> any one
  character, and any other character matches itself, the letters of ASCII in either case.
\<close>

definition ascii_lower :: "char \<Rightarrow> char" where
  "ascii_lower c =
     (case map_of (zip ''ABCDEFGHIJKLMNOPQRSTUVWXYZ'' ''abcdefghijklmnopqrstuvwxyz'') c of
        Some l \<Rightarrow> l
      | None \<Rightarrow> c)"

fun sql_like :: "string \<Rightarrow> string \<Rightarrow> bool" where
  "sql_like [] [] = True"
| "sql_like [] (c # cs) = False"
| "sql_like (p # ps) [] = (p = CHR ''%'' \<and> sql_like ps [])"
| "sql_like (p # ps) (c # cs) =
     (if p = CHR ''%'' then sql_like ps (c # cs) \<or> sql_like (p # ps) cs
      else (p = CHR ''_'' \<or> ascii_lower p = ascii_lower c) \<and> sql_like ps cs)"

subsection \<open>The store and its transactions\<close>

text \<open>
  The fields of \<^verbatim>\<open>_SqlLiteHappyStore\<close> that change. The serializer is fixed at
  construction and is a parameter of the methods that use it.
\<close>

record store =
  is_already_in_txn :: bool
  txn_nesting_level :: nat
  sqlite_connection :: connection

text \<open>The store right after \<^verbatim>\<open>__init__\<close>, over a database file with the given rows.\<close>

definition open_store :: "table \<Rightarrow> store" where
  "open_store t =
     \<lparr>is_already_in_txn = False, txn_nesting_level = 0,
      sqlite_connection =
        \<lparr>rows = t, txn_begin = None, savepoints = [], opened_by_savepoint = False\<rparr>\<rparr>"

text \<open>\<^verbatim>\<open>self._sqlite_connection.execute(...)\<close> for a statement without a result.\<close>

definition execute :: "(connection \<Rightarrow> exn + connection) \<Rightarrow> store \<Rightarrow> exn option \<times> store" where
  "execute stmt st =
     (case stmt (sqlite_connection st) of
        Inl e \<Rightarrow> (Some e, st)
      | Inr c \<Rightarrow> (None, st\<lparr>sqlite_connection := c\<rparr>))"

text \<open>
  \<^verbatim>\<open>transaction\<close> is a generator-based context manager; the four definitions below are the
  parts of its \<^verbatim>\<open>try\<close> statement: the code before \<^verbatim>\<open>yield\<close>, the statement both \<^verbatim>\<open>except\<close>
  clauses execute, the \<^verbatim>\<open>else\<close> clause and the \<^verbatim>\<open>finally\<close> clause.
\<close>

definition txn_enter :: "store \<Rightarrow> exn option \<times> store" where
  "txn_enter st =
     (if is_already_in_txn st
      then execute sql_savepoint_txn (st\<lparr>txn_nesting_level := txn_nesting_level st + 1\<rparr>)
      else execute sql_begin_exclusive (st\<lparr>is_already_in_txn := True\<rparr>))"

definition txn_rollback :: "store \<Rightarrow> exn option \<times> store" where
  "txn_rollback st =
     (if txn_nesting_level st > 0 then execute sql_rollback_to_txn st
      else execute sql_rollback st)"

definition txn_commit :: "store \<Rightarrow> exn option \<times> store" where
  "txn_commit st =
     (if txn_nesting_level st > 0 then execute sql_release_savepoint_txn st
      else execute sql_commit st)"

definition txn_finally :: "store \<Rightarrow> store" where
  "txn_finally st =
     (if txn_nesting_level st = 0 then st\<lparr>is_already_in_txn := False\<rparr>
      else st\<lparr>txn_nesting_level := txn_nesting_level st - 1\<rparr>)"

text \<open>
  \<^verbatim>\<open>with self.transaction(): body\<close>. The block ends in one of three ways: \<open>Inl e\<close>, the
  exception \<open>e\<close> leaves the \<^verbatim>\<open>with\<close> statement; \<open>Inr (Some a)\<close>, the body ran to its end
  with the result \<open>a\<close>; \<open>Inr None\<close>, the context manager caught an \<^verbatim>\<open>AbortionError\<close> and
  the statement after the block runs next. An exception of a statement in a handler or in
  the \<^verbatim>\<open>else\<close> clause replaces the outcome; the \<^verbatim>\<open>finally\<close> clause runs in every case.
\<close>

definition transaction ::
  "(store \<Rightarrow> (exn + 'a) \<times> store) \<Rightarrow> store \<Rightarrow> (exn + 'a option) \<times> store" where
  "transaction body st =
     (case txn_enter st of (entered, st1) \<Rightarrow>
      (case (case entered of Some e \<Rightarrow> (Inl e, st1) | None \<Rightarrow> body st1) of (r, st2) \<Rightarrow>
       (case
          (case r of
             Inl e \<Rightarrow>
               (if e = AbortionError
                then (case txn_rollback st2 of
                        (Some e', st3) \<Rightarrow> (Inl e', st3)
                      | (None, st3) \<Rightarrow> (Inr None, st3))
                else (case txn_rollback st2 of
                        (Some e', st3) \<Rightarrow> (Inl e', st3)
                      | (None, st3) \<Rightarrow> (Inl e, st3)))
           | Inr a \<Rightarrow>
               (case txn_commit st2 of
                  (Some e', st3) \<Rightarrow> (Inl e', st3)
                | (None, st3) \<Rightarrow> (Inr (Some a), st3)))
        of (res, st3) \<Rightarrow> (res, txn_finally st3))))"

text \<open>
  \<^verbatim>\<open>_ensure_execution_in_txn(f, args)\<close>. Inside a transaction it returns \<open>f\<close>'s result;
  otherwise \<open>f\<close> runs in a \<^verbatim>\<open>with self.transaction()\<close> block of its own, and the method
  returns Python's \<^verbatim>\<open>None\<close> (\<open>Inr None\<close>) when the block swallowed an \<^verbatim>\<open>AbortionError\<close>.
\<close>

definition ensure_execution_in_txn ::
  "(store \<Rightarrow> (exn + 'a) \<times> store) \<Rightarrow> store \<Rightarrow> (exn + 'a option) \<times> store" where
  "ensure_execution_in_txn f st =
     (if is_already_in_txn st
      then (case f st of (Inl e, st') \<Rightarrow> (Inl e, st') | (Inr a, st') \<Rightarrow> (Inr (Some a), st'))
      else transaction f st)"

subsection \<open>Point operations\<close>

text \<open>
  The methods of \<^verbatim>\<open>_SqlLiteHappyStore\<close>. The methods of \<^verbatim>\<open>HappyStore\<close> of the same
  names only check that each key is a \<^verbatim>\<open>str\<close>, which the type \<open>key\<close> says already, and
  delegate.
\<close>

definition get_impl :: "key \<Rightarrow> store \<Rightarrow> (exn + bytes) \<times> store" where
  "get_impl k st =
     (case sql_select_value k (sqlite_connection st) of
        value_bytes # others \<Rightarrow> (Inr value_bytes, st)
      | [] \<Rightarrow> (Inl (LookupError k), st))"

definition get :: "'v serializer \<Rightarrow> key \<Rightarrow> store \<Rightarrow> (exn + 'v) \<times> store" where
  "get ser k st =
     (case ensure_execution_in_txn (get_impl k) st of
        (Inl e, st') \<Rightarrow> (Inl e, st')
      | (Inr value_bytes, st') \<Rightarrow> (deserialize ser value_bytes, st'))"

definition has_impl :: "key \<Rightarrow> store \<Rightarrow> (exn + bool) \<times> store" where
  "has_impl k st =
     (if length (sql_select_1 k (sqlite_connection st)) \<noteq> 0 then (Inr True, st)
      else (Inr False, st))"

definition has :: "key \<Rightarrow> store \<Rightarrow> (exn + bool option) \<times> store" where
  "has k st = ensure_execution_in_txn (has_impl k) st"

definition set_impl :: "key \<Rightarrow> bytes \<Rightarrow> store \<Rightarrow> (exn + unit) \<times> store" where
  "set_impl k value_bytes st =
     (case execute (sql_replace_into [(k, value_bytes)]) st of
        (Some e, st') \<Rightarrow> (Inl e, st')
      | (None, st') \<Rightarrow> (Inr (), st'))"

text \<open>\<^verbatim>\<open>set\<close>; the name \<open>set\<close> is taken in HOL.\<close>

definition set_value :: "'v serializer \<Rightarrow> key \<Rightarrow> 'v \<Rightarrow> store \<Rightarrow> (exn + unit option) \<times> store" where
  "set_value ser k v st =
     (case serialize ser v of
        Inl e \<Rightarrow> (Inl e, st)
      | Inr value_bytes \<Rightarrow> ensure_execution_in_txn (set_impl k value_bytes) st)"

definition delete_impl :: "key \<Rightarrow> store \<Rightarrow> (exn + bool) \<times> store" where
  "delete_impl k st =
     (case sql_delete k (sqlite_connection st) of
        (rowcount, c) \<Rightarrow> (Inr (rowcount > 0), st\<lparr>sqlite_connection := c\<rparr>))"

definition delete :: "key \<Rightarrow> store \<Rightarrow> (exn + bool option) \<times> store" where
  "delete k st = ensure_execution_in_txn (delete_impl k) st"

subsection \<open>Bulk operations\<close>




text \<open>
  \<^verbatim>\<open>_bulk_set_impl\<close> writes one \<^verbatim>\<open>(?, ?)\<close> per pair into the statement and binds the
  flattened list of pairs to them, pair by pair.
\<close>

definition bulk_set_impl :: "(key \<times> bytes) list \<Rightarrow> store \<Rightarrow> (exn + unit) \<times> store" where
  "bulk_set_impl key_serialized_value_pairs st =
     (case execute (sql_replace_into key_serialized_value_pairs) st of
        (Some e, st') \<Rightarrow> (Inl e, st')
      | (None, st') \<Rightarrow> (Inr (), st'))"

fun serialize_pairs :: "'v serializer \<Rightarrow> (key \<times> 'v) list \<Rightarrow> exn + (key \<times> bytes) list" where
  "serialize_pairs ser [] = Inr []"
| "serialize_pairs ser ((k, v) # kvs) =
     (case serialize ser v of
        Inl e \<Rightarrow> Inl e
      | Inr value_bytes \<Rightarrow>
          (case serialize_pairs ser kvs of
             Inl e \<Rightarrow> Inl e
           | Inr rest \<Rightarrow> Inr ((k, value_bytes) # rest)))"

definition bulk_set ::
  "'v serializer \<Rightarrow> (key \<times> 'v) list \<Rightarrow> store \<Rightarrow> (exn + unit option) \<times> store" where
  "bulk_set ser key_value_pairs st =
     (case serialize_pairs ser key_value_pairs of
        Inl e \<Rightarrow> (Inl e, st)
      | Inr key_serialized_value_pairs \<Rightarrow>
          ensure_execution_in_txn (bulk_set_impl key_serialized_value_pairs) st)"

text \<open>
  \<^verbatim>\<open>_bulk_delete_impl\<close> selects the keys that exist, deletes them and answers, key by
  key, whether the key was among them.
\<close>

definition bulk_delete_impl :: "key list \<Rightarrow> store \<Rightarrow> (exn + bool list) \<times> store" where
  "bulk_delete_impl keys st =
     (let found_keys = set (map fst (sql_select_in keys (sqlite_connection st)))
      in (Inr (map (\<lambda>k. k \<in> found_keys) keys),
          st\<lparr>sqlite_connection := sql_delete_in keys (sqlite_connection st)\<rparr>))"

definition bulk_delete :: "key list \<Rightarrow> store \<Rightarrow> (exn + bool list option) \<times> store" where
  "bulk_delete keys st = ensure_execution_in_txn (bulk_delete_impl keys) st"

subsection \<open>Queries\<close>

text \<open>
  \<^verbatim>\<open>_query_impl\<close>: an \<^verbatim>\<open>if\<close>/\<^verbatim>\<open>elif\<close> chain with four branches, each of which binds
  \<^verbatim>\<open>sql\<close> and \<^verbatim>\<open>params\<close>. With no prefix and no bound no branch is taken, and the read of
  \<^verbatim>\<open>sql\<close> that follows raises \<^verbatim>\<open>UnboundLocalError\<close>. The prefix branch has no
  \<^verbatim>\<open>DESC\<close>: it ignores \<^verbatim>\<open>reverse\<close>.
\<close>

definition query_impl ::
  "key option \<Rightarrow> key option \<Rightarrow> key option \<Rightarrow> int option \<Rightarrow> bool \<Rightarrow> store
     \<Rightarrow> (exn + table) \<times> store" where
  "query_impl keyprefix start end' limit reverse st =
     (case keyprefix of
        Some p \<Rightarrow>
          (Inr (sql_select_ordered (sql_like (p @ ''%'')) False limit (sqlite_connection st)), st)
      | None \<Rightarrow>
          (case (start, end') of
             (Some lo, Some hi) \<Rightarrow>
               (Inr (sql_select_ordered (\<lambda>k. lo \<le> k \<and> k \<le> hi) reverse limit
                      (sqlite_connection st)), st)
           | (Some lo, None) \<Rightarrow>
               (Inr (sql_select_ordered (\<lambda>k. lo \<le> k) reverse limit (sqlite_connection st)), st)
           | (None, Some hi) \<Rightarrow>
               (Inr (sql_select_ordered (\<lambda>k. k \<le> hi) reverse limit (sqlite_connection st)), st)
           | (None, None) \<Rightarrow> (Inl UnboundLocalError, st)))"

text \<open>The list comprehension of \<^verbatim>\<open>query\<close> and of \<^verbatim>\<open>scan\<close>.\<close>

fun deserialize_pairs :: "'v serializer \<Rightarrow> table \<Rightarrow> exn + (key \<times> 'v) list" where
  "deserialize_pairs ser [] = Inr []"
| "deserialize_pairs ser ((k, value_bytes) # kvs) =
     (case deserialize ser (Some value_bytes) of
        Inl e \<Rightarrow> Inl e
      | Inr v \<Rightarrow>
          (case deserialize_pairs ser kvs of
             Inl e \<Rightarrow> Inl e
           | Inr rest \<Rightarrow> Inr ((k, v) # rest)))"

definition query ::
  "'v serializer \<Rightarrow> key option \<Rightarrow> key option \<Rightarrow> key option \<Rightarrow> int option \<Rightarrow> bool \<Rightarrow> store
     \<Rightarrow> (exn + (key \<times> 'v) list) \<times> store" where
  "query ser keyprefix start end' limit reverse st =
     (case ensure_execution_in_txn (query_impl keyprefix start end' limit reverse) st of
        (Inl e, st') \<Rightarrow> (Inl e, st')
      | (Inr None, st') \<Rightarrow> (Inl TypeError, st')
      | (Inr (Some kv_pairs_with_bytes_values), st') \<Rightarrow>
          (deserialize_pairs ser kv_pairs_with_bytes_values, st'))"

text \<open>
  \<^verbatim>\<open>HappyStore.query\<close>, the public method: a prefix together with a bound is refused
  before the store is touched.
\<close>

definition is_not_None :: "'a option \<Rightarrow> bool" where
  "is_not_None x = (case x of None \<Rightarrow> False | Some y \<Rightarrow> True)"

definition HappyStore_query ::
  "'v serializer \<Rightarrow> key option \<Rightarrow> key option \<Rightarrow> key option \<Rightarrow> int option \<Rightarrow> bool \<Rightarrow> store
     \<Rightarrow> (exn + (key \<times> 'v) list) \<times> store" where
  "HappyStore_query ser keyprefix start end' limit reverse st =
     (if is_not_None keyprefix \<and> (is_not_None start \<or> is_not_None end')
      then (Inl RuntimeError, st)
      else query ser keyprefix start end' limit reverse st)"

subsection \<open>Scan\<close>



subsection \<open>Callers' code\<close>

text \<open>
  The statements a caller writes around the store: writes, \<^verbatim>\<open>raise\<close>,
  \<^verbatim>\<open>with store.transaction():\<close> blocks, nested at will, and
  \<^verbatim>\<open>try: ... except Exception: pass\<close>. \<open>run\<close> executes a block statement by statement and
  stops at the first exception, as Python does.
\<close>

datatype 'v stmt =
    Set key 'v
  | Delete key
  | Raise exn
  | With_transaction "'v stmt list"
  | Try_except_pass "'v stmt list"

fun run :: "'v serializer \<Rightarrow> 'v stmt list \<Rightarrow> store \<Rightarrow> (exn + unit) \<times> store"
  and run_stmt :: "'v serializer \<Rightarrow> 'v stmt \<Rightarrow> store \<Rightarrow> (exn + unit) \<times> store" where
  "run ser [] st = (Inr (), st)"
| "run ser (x # xs) st =
     (case run_stmt ser x st of
        (Inl e, st') \<Rightarrow> (Inl e, st')
      | (Inr u, st') \<Rightarrow> run ser xs st')"
| "run_stmt ser (Set k v) st =
     (case set_value ser k v st of (Inl e, st') \<Rightarrow> (Inl e, st') | (Inr u, st') \<Rightarrow> (Inr (), st'))"
| "run_stmt ser (Delete k) st =
     (case delete k st of (Inl e, st') \<Rightarrow> (Inl e, st') | (Inr u, st') \<Rightarrow> (Inr (), st'))"
| "run_stmt ser (Raise e) st = (Inl e, st)"
| "run_stmt ser (With_transaction body) st =
     (case transaction (run ser body) st of
        (Inl e, st') \<Rightarrow> (Inl e, st')
      | (Inr u, st') \<Rightarrow> (Inr (), st'))"
| "run_stmt ser (Try_except_pass body) st =
     (case run ser body st of (r, st') \<Rightarrow> (Inr (), st'))"

subsection \<open>Well-formed states\<close>

text \<open>
  The flag \<^verbatim>\<open>_is_already_in_txn\<close> agrees with the connection: inside a \<^verbatim>\<open>with\<close> block
  the connection has the transaction open that \<^verbatim>\<open>BEGIN\<close> opened; outside, the connection
  is in autocommit mode and the nesting level is zero. \<open>open_store\<close> gives such a state and
  every method keeps the property.
\<close>

definition consistent :: "store \<Rightarrow> bool" where
  "consistent st =
     (if is_already_in_txn st
      then txn_begin (sqlite_connection st) \<noteq> None \<and>
           \<not> opened_by_savepoint (sqlite_connection st)
      else txn_begin (sqlite_connection st) = None \<and> txn_nesting_level st = 0 \<and>
           savepoints (sqlite_connection st) = [] \<and>
           \<not> opened_by_savepoint (sqlite_connection st))"



text \<open>
  A serializer of the caller's own, used in the examples: values are byte strings and the
  codec passes them through.
\<close>

definition PassThroughSerializer :: "bytes serializer" where
  "PassThroughSerializer =
     \<lparr>serialize = (\<lambda>v. Inr v),
      deserialize = (\<lambda>bytess. case bytess of None \<Rightarrow> Inl DeserializationError
                                           | Some b \<Rightarrow> Inr b)\<rparr>"

subsection \<open>The bounds of a range query, in the words of the specification\<close>


subsection \<open>Exceptions and checkpoints of a block, in the words of the specification\<close>

text \<open>
  The exception that leaves a block: an abort stops at the boundary of its scope, any other
  exception goes on to the caller. A write raises what the serializer raises.
\<close>

fun propagates :: "'v serializer \<Rightarrow> 'v stmt list \<Rightarrow> exn option"
  and propagates_stmt :: "'v serializer \<Rightarrow> 'v stmt \<Rightarrow> exn option" where
  "propagates ser [] = None"
| "propagates ser (x # xs) =
     (case propagates_stmt ser x of Some e \<Rightarrow> Some e | None \<Rightarrow> propagates ser xs)"
| "propagates_stmt ser (Set k v) = (case serialize ser v of Inl e \<Rightarrow> Some e | Inr b \<Rightarrow> None)"
| "propagates_stmt ser (Delete k) = None"
| "propagates_stmt ser (Raise e) = Some e"
| "propagates_stmt ser (With_transaction body) =
     (case propagates ser body of
        Some e \<Rightarrow> (if e = AbortionError then None else Some e)
      | None \<Rightarrow> None)"
| "propagates_stmt ser (Try_except_pass body) = None"

definition as_result :: "exn option \<Rightarrow> exn + unit" where
  "as_result x = (case x of None \<Rightarrow> Inr () | Some e \<Rightarrow> Inl e)"

text \<open>A block in which no nested scope ends with an exception, at any depth.\<close>

fun undisturbed :: "'v serializer \<Rightarrow> 'v stmt list \<Rightarrow> bool"
  and undisturbed_stmt :: "'v serializer \<Rightarrow> 'v stmt \<Rightarrow> bool" where
  "undisturbed ser [] = True"
| "undisturbed ser (x # xs) = (undisturbed_stmt ser x \<and> undisturbed ser xs)"
| "undisturbed_stmt ser (Set k v) = True"
| "undisturbed_stmt ser (Delete k) = True"
| "undisturbed_stmt ser (Raise e) = True"
| "undisturbed_stmt ser (With_transaction body) =
     (propagates ser body = None \<and> undisturbed ser body)"
| "undisturbed_stmt ser (Try_except_pass body) = undisturbed ser body"

text \<open>
  The invariant of the transaction manager: \<open>consistent\<close>, and inside a transaction the
  stack of savepoints is at least as deep as the nesting level.
\<close>

definition txn_inv :: "store \<Rightarrow> bool" where
  "txn_inv st =
     (if is_already_in_txn st
      then txn_begin (sqlite_connection st) \<noteq> None \<and>
           \<not> opened_by_savepoint (sqlite_connection st) \<and>
           txn_nesting_level st \<le> length (savepoints (sqlite_connection st))
      else txn_begin (sqlite_connection st) = None \<and> txn_nesting_level st = 0 \<and>
           savepoints (sqlite_connection st) = [] \<and>
           \<not> opened_by_savepoint (sqlite_connection st))"

text \<open>Two states of one scope: the same flag and the same nesting level.\<close>

definition same_scope :: "store \<Rightarrow> store \<Rightarrow> bool" where
  "same_scope st st' =
     (txn_inv st' \<and> is_already_in_txn st' = is_already_in_txn st \<and>
      txn_nesting_level st' = txn_nesting_level st)"

text \<open>Two states with the same checkpoints: the savepoints and the start of the transaction.\<close>

definition same_checkpoints :: "store \<Rightarrow> store \<Rightarrow> bool" where
  "same_checkpoints st st' =
     (savepoints (sqlite_connection st') = savepoints (sqlite_connection st) \<and>
      txn_begin (sqlite_connection st') = txn_begin (sqlite_connection st))"

section \<open>Serializer round trip\<close>

text \<open>
  Claim C8, for \<^verbatim>\<open>RawSerializer\<close>: the serializer accepts the byte string \<^verbatim>\<open>b'ab'\<close>, and
  deserializing what it returned raises \<^verbatim>\<open>SerializationError\<close> instead of giving the
  value back.
\<close>

theorem RawSerializer_round_trip_fails:
  "serialize RawSerializer (PyBytes ''ab'') = Inr ''ab'' \<and>
   deserialize RawSerializer (Some ''ab'') = Inl SerializationError \<and>
   deserialize RawSerializer (Some ''ab'') \<noteq> Inr (PyBytes ''ab'')"
  by (simp add: RawSerializer_def RawSerializer_serialize_def RawSerializer_deserialize_def)

section \<open>Point consistency\<close>

lemmas txn_defs = transaction_def txn_enter_def txn_rollback_def txn_commit_def txn_finally_def
  execute_def sql_begin_exclusive_def sql_savepoint_txn_def sql_rollback_to_txn_def
  sql_release_savepoint_txn_def sql_rollback_def sql_commit_def implicit_begin_def

lemma consistent_open_store: "consistent (open_store t)"
  by (simp add: consistent_def open_store_def)

lemma set_value_ok:
  assumes "consistent st" and "serialize ser v = Inr b"
  shows "\<exists>st1. set_value ser k v st = (Inr (Some ()), st1) \<and> consistent st1 \<and>
           rows (sqlite_connection st1) = replace_row (k, b) (rows (sqlite_connection st))"
  using assms
  by (auto simp: set_value_def ensure_execution_in_txn_def set_impl_def sql_replace_into_def
       consistent_def txn_defs split: if_splits option.splits)

lemma get_ok:
  assumes "consistent st"
  shows "fst (get ser k st) =
           (case sql_select_value k (sqlite_connection st) of
              [] \<Rightarrow> Inl (LookupError k)
            | b # bs \<Rightarrow> deserialize ser (Some b))"
  using assms
  by (auto simp: get_def ensure_execution_in_txn_def get_impl_def sql_select_value_def
       consistent_def txn_defs split: if_splits option.splits list.splits sum.splits prod.splits)

lemma has_ok:
  assumes "consistent st"
  shows "fst (has k st) = Inr (Some (k \<in> fst ` set (rows (sqlite_connection st))))"
  using assms
  by (auto simp: has_def ensure_execution_in_txn_def has_impl_def sql_select_1_def
       filter_empty_conv consistent_def txn_defs
       split: if_splits option.splits list.splits sum.splits prod.splits)

lemma delete_ok:
  assumes "consistent st"
  shows "\<exists>st1. delete k st = (Inr (Some (k \<in> fst ` set (rows (sqlite_connection st)))), st1) \<and>
           consistent st1 \<and>
           rows (sqlite_connection st1) = filter (\<lambda>r. fst r \<noteq> k) (rows (sqlite_connection st))"
  using assms
  by (auto simp: delete_def ensure_execution_in_txn_def delete_impl_def sql_delete_def
       filter_empty_conv consistent_def txn_defs
       split: if_splits option.splits list.splits sum.splits prod.splits)

lemma select_after_replace:
  "map snd (filter (\<lambda>r. fst r = k) (replace_row (k, b) t)) = [b]"
  by (induction t) (auto simp: replace_row_def)

text \<open>
  Claim C3. In a well-formed state, with a value the serializer round-trips: \<open>set\<close>
  succeeds, and right after it \<open>get\<close> returns the value and \<open>has\<close> returns \<open>True\<close>;
  \<open>delete\<close> succeeds, and right after it \<open>has\<close> returns \<open>False\<close> and \<open>get\<close> raises
  \<open>LookupError\<close>. This holds inside a \<^verbatim>\<open>with store.transaction()\<close> block and outside.
\<close>

theorem point_consistency:
  assumes "consistent st" and "serialize ser v = Inr b" and "deserialize ser (Some b) = Inr v"
  shows "(\<exists>st1. set_value ser k v st = (Inr (Some ()), st1) \<and>
            fst (get ser k st1) = Inr v \<and> fst (has k st1) = Inr (Some True)) \<and>
         (\<exists>r st2. delete k st = (Inr (Some r), st2) \<and>
            fst (has k st2) = Inr (Some False) \<and> fst (get ser k st2) = Inl (LookupError k))"
proof
  from set_value_ok [OF assms(1,2), of k] obtain st1 where
    s: "set_value ser k v st = (Inr (Some ()), st1)" and c: "consistent st1" and
    r: "rows (sqlite_connection st1) = replace_row (k, b) (rows (sqlite_connection st))"
    by blast
  have "fst (get ser k st1) = Inr v"
    using get_ok [OF c, of ser k] r assms(3)
    by (simp add: sql_select_value_def select_after_replace)
  moreover have "fst (has k st1) = Inr (Some True)"
    using has_ok [OF c, of k] r by (simp add: replace_row_def)
  ultimately show "\<exists>st1. set_value ser k v st = (Inr (Some ()), st1) \<and>
            fst (get ser k st1) = Inr v \<and> fst (has k st1) = Inr (Some True)"
    using s by blast
next
  from delete_ok [OF assms(1), of k] obtain r st2 where
    d: "delete k st = (Inr (Some r), st2)" and c: "consistent st2" and
    r: "rows (sqlite_connection st2) = filter (\<lambda>r. fst r \<noteq> k) (rows (sqlite_connection st))"
    by blast
  have "fst (has k st2) = Inr (Some False)"
    using has_ok [OF c, of k] r by auto
  moreover have "fst (get ser k st2) = Inl (LookupError k)"
    using get_ok [OF c, of ser k] r by (simp add: sql_select_value_def)
  ultimately show "\<exists>r st2. delete k st = (Inr (Some r), st2) \<and>
            fst (has k st2) = Inr (Some False) \<and> fst (get ser k st2) = Inl (LookupError k)"
    using d by blast
qed

theorem point_consistency_witness:
  "consistent (open_store [(''k'', ''old'')]) \<and>
   serialize PassThroughSerializer ''new'' = Inr ''new'' \<and>
   deserialize PassThroughSerializer (Some ''new'') = Inr ''new'' \<and>
   (\<exists>st1. set_value PassThroughSerializer ''k'' ''new'' (open_store [(''k'', ''old'')])
            = (Inr (Some ()), st1) \<and>
          fst (get PassThroughSerializer ''k'' st1) = Inr ''new'' \<and>
          fst (has ''k'' st1) = Inr (Some True)) \<and>
   (\<exists>r st2. delete ''k'' (open_store [(''k'', ''old'')]) = (Inr (Some r), st2) \<and>
          fst (has ''k'' st2) = Inr (Some False) \<and>
          fst (get PassThroughSerializer ''k'' st2) = Inl (LookupError ''k''))"
proof -
  have c: "consistent (open_store [(''k'', ''old'')])"
    by (rule consistent_open_store)
  have s: "serialize PassThroughSerializer ''new'' = Inr ''new''"
    by (simp add: PassThroughSerializer_def)
  have d: "deserialize PassThroughSerializer (Some ''new'') = Inr ''new''"
    by (simp add: PassThroughSerializer_def)
  show ?thesis
    using point_consistency [OF c s d, of "''k''"] c s d by simp
qed

section \<open>Bulk operations\<close>









lemma bulk_set_ok:
  assumes "consistent st" and "serialize_pairs ser kvs = Inr pairs" and "kvs \<noteq> []"
  shows "\<exists>st1. bulk_set ser kvs st = (Inr (Some ()), st1) \<and> consistent st1 \<and>
           rows (sqlite_connection st1) = fold replace_row pairs (rows (sqlite_connection st))"
proof -
  have "pairs \<noteq> []"
    using assms(2,3) by (cases kvs) (auto split: sum.splits)
  then show ?thesis
    using assms(1,2)
    by (auto simp: bulk_set_def ensure_execution_in_txn_def bulk_set_impl_def sql_replace_into_def
       consistent_def txn_defs split: if_splits option.splits)
qed

text \<open>
  Claim C10. In a well-formed state, \<open>bulk_set\<close> of the empty list raises
  \<^verbatim>\<open>sqlite3.OperationalError\<close> (the statement ends after \<^verbatim>\<open>VALUES\<close>) and leaves the store
  as it was; so a call of \<open>bulk_set\<close> that returns was given a non-empty list.
\<close>

theorem bulk_set_empty_raises:
  assumes "consistent st"
  shows "bulk_set ser [] st = (Inl OperationalError, st) \<and>
         (\<forall>kvs r st'. bulk_set ser kvs st = (Inr r, st') \<longrightarrow> kvs \<noteq> [])"
proof -
  have "bulk_set ser [] st = (Inl OperationalError, st)"
    using assms
    by (auto simp: bulk_set_def ensure_execution_in_txn_def bulk_set_impl_def sql_replace_into_def
       consistent_def txn_defs split: if_splits option.splits)
  then show ?thesis by auto
qed

theorem bulk_set_empty_raises_witness:
  "consistent (open_store [(''a'', ''1'')]) \<and>
   bulk_set PassThroughSerializer [] (open_store [(''a'', ''1'')]) =
     (Inl OperationalError, open_store [(''a'', ''1'')]) \<and>
   fst (bulk_set PassThroughSerializer [(''b'', ''2'')] (open_store [(''a'', ''1'')])) =
     Inr (Some ())"
proof -
  have c: "consistent (open_store [(''a'', ''1'')])"
    by (rule consistent_open_store)
  have s: "serialize_pairs PassThroughSerializer [(''b'', ''2'')] = Inr [(''b'', ''2'')]"
    by (simp add: PassThroughSerializer_def)
  from bulk_set_ok [OF c s] have
    "fst (bulk_set PassThroughSerializer [(''b'', ''2'')] (open_store [(''a'', ''1'')])) =
       Inr (Some ())"
    by auto
  then show ?thesis
    using bulk_set_empty_raises [OF c, of PassThroughSerializer] c by simp
qed

section \<open>Nested transactions\<close>

lemmas op_defs = set_value_def delete_def ensure_execution_in_txn_def set_impl_def delete_impl_def
  sql_replace_into_def sql_delete_def replace_row_def open_store_def
  RawSerializer_def RawSerializer_serialize_def PassThroughSerializer_def

text \<open>
  Claim C1, at a root transaction with a scope nested in a nested scope. The root block
  sets \<open>a\<close>; the scope inside it sets \<open>b\<close>, runs a third scope that sets \<open>c\<close> and
  aborts, and then aborts itself. After the root block has committed, the store holds
  \<open>a\<close> and \<open>b\<close>: the abort of the middle scope did not go back to the checkpoint of the
  middle scope. Its \<^verbatim>\<open>ROLLBACK TO txn\<close> found the savepoint of the innermost scope, which
  \<^verbatim>\<open>ROLLBACK TO\<close> had left on the stack, and that savepoint was set after \<open>b\<close> was
  written.
\<close>

theorem nested_abort_keeps_enclosing_writes:
  "run RawSerializer
     [With_transaction
        [Set ''a'' (PyBytes ''1''),
         With_transaction
           [Set ''b'' (PyBytes ''2''),
            With_transaction [Set ''c'' (PyBytes ''3''), Raise AbortionError],
            Raise AbortionError]]]
     (open_store []) =
   (Inr (), open_store [(''a'', ''1''), (''b'', ''2'')])"
  by (simp add: op_defs txn_defs)

text \<open>
  Claim C2, at a scope that fails with an exception other than \<^verbatim>\<open>AbortionError\<close> after a
  scope nested in it has aborted. The exception is re-raised (the caller catches it), but
  the pending write of the failing scope, \<open>b\<close>, is not rolled back: it is committed with
  the root transaction.
\<close>

theorem nested_failure_keeps_enclosing_writes:
  "run RawSerializer
     [With_transaction
        [Set ''a'' (PyBytes ''1''),
         Try_except_pass
           [With_transaction
              [Set ''b'' (PyBytes ''2''),
               With_transaction [Raise AbortionError],
               Raise (OtherException ''boom'')]]]]
     (open_store []) =
   (Inr (), open_store [(''a'', ''1''), (''b'', ''2'')])"
  by (simp add: op_defs txn_defs)

text \<open>
  What does hold of nested scopes. First, the exception that leaves a block is the one the
  specification names, for every block and every state that satisfies the invariant:
  \<^verbatim>\<open>AbortionError\<close> never leaves the \<^verbatim>\<open>with\<close> block it was raised in, and any other
  exception is re-raised unchanged.
\<close>

lemma set_value_scope:
  assumes "txn_inv st"
  shows "fst (run_stmt ser (Set k v) st) = as_result (propagates_stmt ser (Set k v)) \<and>
         same_scope st (snd (run_stmt ser (Set k v) st))"
  using assms
  by (cases "serialize ser v")
     (auto simp: as_result_def same_scope_def set_value_def ensure_execution_in_txn_def
        set_impl_def sql_replace_into_def txn_inv_def txn_defs split: if_splits option.splits)

lemma delete_scope:
  assumes "txn_inv st"
  shows "fst (run_stmt ser (Delete k) st) = as_result (propagates_stmt ser (Delete k)) \<and>
         same_scope st (snd (run_stmt ser (Delete k) st))"
  using assms
  by (auto simp: as_result_def same_scope_def delete_def ensure_execution_in_txn_def
        delete_impl_def sql_delete_def txn_inv_def txn_defs split: if_splits option.splits)

lemma transaction_scope:
  assumes inv: "txn_inv st"
    and body: "\<And>st1. txn_inv st1 \<Longrightarrow>
                 fst (body st1) = as_result x \<and> same_scope st1 (snd (body st1))"
  shows "fst (transaction body st) =
           (case x of Some e \<Rightarrow> (if e = AbortionError then Inr None else Inl e)
                    | None \<Rightarrow> Inr (Some ())) \<and>
         same_scope st (snd (transaction body st))"
proof -
  obtain st1 where enter: "txn_enter st = (None, st1)" and inv1: "txn_inv st1"
    and lvl: "if is_already_in_txn st
              then is_already_in_txn st1 \<and> txn_nesting_level st1 = Suc (txn_nesting_level st)
              else is_already_in_txn st1 \<and> txn_nesting_level st1 = 0"
    and sp: "is_already_in_txn st \<Longrightarrow> savepoints (sqlite_connection st1) \<noteq> [] \<and>
               Suc (txn_nesting_level st) \<le> length (savepoints (sqlite_connection st1))"
    using inv
    by (auto simp: txn_inv_def txn_enter_def execute_def sql_savepoint_txn_def
          sql_begin_exclusive_def split: if_splits option.splits)
  obtain r st2 where b: "body st1 = (r, st2)" by (cases "body st1")
  from body [OF inv1] b have r: "r = as_result x" and s2: "same_scope st1 st2" by auto
  show ?thesis
    using inv enter b r s2 lvl
    by (cases x)
       (auto simp: transaction_def as_result_def same_scope_def txn_inv_def
          txn_rollback_def txn_commit_def txn_finally_def execute_def
          sql_rollback_to_txn_def sql_release_savepoint_txn_def sql_rollback_def sql_commit_def
          split: if_splits option.splits list.splits)
qed

lemma txn_inv_open_store: "txn_inv (open_store t)"
  by (simp add: txn_inv_def open_store_def)

lemma txn_inv_consistent: "txn_inv st \<Longrightarrow> consistent st"
  by (simp add: txn_inv_def consistent_def split: if_splits)

lemma same_scope_refl: "txn_inv st \<Longrightarrow> same_scope st st"
  by (simp add: same_scope_def)

lemma same_scope_trans: "same_scope a b \<Longrightarrow> same_scope b c \<Longrightarrow> same_scope a c"
  by (simp add: same_scope_def)

lemma same_scope_inv: "same_scope a b \<Longrightarrow> txn_inv b"
  by (simp add: same_scope_def)

lemma run_propagation:
  "txn_inv st \<Longrightarrow>
     fst (run ser p st) = as_result (propagates ser p) \<and> same_scope st (snd (run ser p st))"
  "txn_inv st \<Longrightarrow>
     fst (run_stmt ser x st) = as_result (propagates_stmt ser x) \<and>
     same_scope st (snd (run_stmt ser x st))"
proof (induction ser p st and ser x st rule: run_run_stmt.induct)
  case (1 ser st)
  then show ?case by (simp add: as_result_def same_scope_refl)
next
  case (2 ser x xs st)
  obtain r st' where x: "run_stmt ser x st = (r, st')" by (cases "run_stmt ser x st")
  from "2.IH"(1) [OF "2.prems"] x
  have r: "r = as_result (propagates_stmt ser x)" and s: "same_scope st st'" by auto
  show ?case
  proof (cases "propagates_stmt ser x")
    case (Some e)
    with x r s show ?thesis by (simp add: as_result_def)
  next
    case None
    with r have rr: "r = Inr ()" by (simp add: as_result_def)
    from "2.IH"(2) [OF x [symmetric] rr same_scope_inv [OF s]]
    have "fst (run ser xs st') = as_result (propagates ser xs)"
      and "same_scope st' (snd (run ser xs st'))" by auto
    with x rr None s show ?thesis
      by (auto intro: same_scope_trans)
  qed
next
  case (3 ser k v st)
  then show ?case by (rule set_value_scope)
next
  case (4 ser k st)
  then show ?case by (rule delete_scope)
next
  case (5 ser e st)
  then show ?case by (simp add: as_result_def same_scope_refl)
next
  case (6 ser body st)
  have "fst (transaction (run ser body) st) =
           (case propagates ser body of
              Some e \<Rightarrow> (if e = AbortionError then Inr None else Inl e)
            | None \<Rightarrow> Inr (Some ())) \<and>
         same_scope st (snd (transaction (run ser body) st))"
    by (rule transaction_scope [OF "6.prems"]) (rule "6.IH")
  then show ?case
    by (cases "transaction (run ser body) st")
       (auto simp: as_result_def split: option.splits if_splits)
next
  case (7 ser body st)
  from "7.IH" [OF "7.prems"] show ?case
    by (cases "run ser body st") (auto simp: as_result_def)
qed

text \<open>
  Second, a scope that ends with an exception goes back to its own checkpoint when no
  scope nested in it has ended with an exception before.
\<close>

lemma same_checkpoints_refl: "same_checkpoints st st"
  by (simp add: same_checkpoints_def)

lemma same_checkpoints_trans:
  "same_checkpoints a b \<Longrightarrow> same_checkpoints b c \<Longrightarrow> same_checkpoints a c"
  by (simp add: same_checkpoints_def)

lemma set_value_checkpoints:
  assumes "txn_inv st" and "is_already_in_txn st"
  shows "same_checkpoints st (snd (run_stmt ser (Set k v) st))"
  using assms
  by (cases "serialize ser v")
     (auto simp: same_checkpoints_def set_value_def ensure_execution_in_txn_def
        set_impl_def sql_replace_into_def txn_inv_def execute_def implicit_begin_def
        split: if_splits option.splits)

lemma delete_checkpoints:
  assumes "txn_inv st" and "is_already_in_txn st"
  shows "same_checkpoints st (snd (run_stmt ser (Delete k) st))"
  using assms
  by (auto simp: same_checkpoints_def delete_def ensure_execution_in_txn_def
        delete_impl_def sql_delete_def txn_inv_def implicit_begin_def
        split: if_splits option.splits)

lemma committed_scope_checkpoints:
  assumes inv: "txn_inv st" and flag: "is_already_in_txn st"
    and body: "\<And>st1. txn_inv st1 \<Longrightarrow> is_already_in_txn st1 \<Longrightarrow>
                 fst (body st1) = Inr () \<and> same_scope st1 (snd (body st1)) \<and>
                 same_checkpoints st1 (snd (body st1))"
  shows "same_checkpoints st (snd (transaction body st))"
proof -
  obtain st1 where enter: "txn_enter st = (None, st1)" and inv1: "txn_inv st1"
    and f1: "is_already_in_txn st1"
    and lvl: "txn_nesting_level st1 = Suc (txn_nesting_level st)"
    and sp: "savepoints (sqlite_connection st1) =
               rows (sqlite_connection st) # savepoints (sqlite_connection st)"
    and tb: "txn_begin (sqlite_connection st1) = txn_begin (sqlite_connection st)"
    and op: "\<not> opened_by_savepoint (sqlite_connection st1)"
    using inv flag
    by (auto simp: txn_inv_def txn_enter_def execute_def sql_savepoint_txn_def
          split: if_splits option.splits)
  obtain r st2 where b: "body st1 = (r, st2)" by (cases "body st1")
  from body [OF inv1 f1] b have r: "r = Inr ()" and s2: "same_scope st1 st2"
    and k2: "same_checkpoints st1 st2" by auto
  show ?thesis
    using enter b r s2 k2 lvl sp tb op f1
    by (auto simp: transaction_def same_scope_def same_checkpoints_def txn_inv_def
          txn_commit_def txn_finally_def execute_def sql_release_savepoint_txn_def
          split: if_splits option.splits list.splits)
qed

lemma undisturbed_checkpoints:
  "txn_inv st \<Longrightarrow> is_already_in_txn st \<Longrightarrow> undisturbed ser p \<Longrightarrow>
     same_checkpoints st (snd (run ser p st))"
  "txn_inv st \<Longrightarrow> is_already_in_txn st \<Longrightarrow> undisturbed_stmt ser x \<Longrightarrow>
     same_checkpoints st (snd (run_stmt ser x st))"
proof (induction ser p st and ser x st rule: run_run_stmt.induct)
  case (1 ser st)
  show ?case by (simp add: same_checkpoints_refl)
next
  case (2 ser x xs st)
  obtain r st' where x: "run_stmt ser x st = (r, st')" by (cases "run_stmt ser x st")
  from "2.prems" have ux: "undisturbed_stmt ser x" and uxs: "undisturbed ser xs" by auto
  from "2.IH"(1) [OF "2.prems"(1,2) ux] x have k: "same_checkpoints st st'" by simp
  from run_propagation(2) [OF "2.prems"(1), of ser x] x
  have s: "same_scope st st'" by simp
  show ?case
  proof (cases r)
    case (Inl e)
    with x k show ?thesis by simp
  next
    case (Inr u)
    then have rr: "r = Inr ()" by simp
    from s "2.prems"(2) have inv': "txn_inv st'" and f': "is_already_in_txn st'"
      by (auto simp: same_scope_def)
    from "2.IH"(2) [OF x [symmetric] rr inv' f' uxs]
    have "same_checkpoints st' (snd (run ser xs st'))" .
    with k x rr show ?thesis
      by (auto intro: same_checkpoints_trans)
  qed
next
  case (3 ser k v st)
  then show ?case by (simp only: set_value_checkpoints)
next
  case (4 ser k st)
  then show ?case by (simp only: delete_checkpoints)
next
  case (5 ser e st)
  show ?case by (simp add: same_checkpoints_refl)
next
  case (6 ser body st)
  from "6.prems" have none: "propagates ser body = None" and u: "undisturbed ser body"
    by auto
  have "same_checkpoints st (snd (transaction (run ser body) st))"
  proof (rule committed_scope_checkpoints [OF "6.prems"(1,2)])
    fix st1 assume i1: "txn_inv st1" and f1: "is_already_in_txn st1"
    from run_propagation(1) [OF i1, of ser body] none
    have "fst (run ser body st1) = Inr ()" and "same_scope st1 (snd (run ser body st1))"
      by (auto simp: as_result_def)
    moreover from "6.IH" [OF i1 f1 u]
    have "same_checkpoints st1 (snd (run ser body st1))" .
    ultimately show "fst (run ser body st1) = Inr () \<and>
        same_scope st1 (snd (run ser body st1)) \<and>
        same_checkpoints st1 (snd (run ser body st1))" by simp
  qed
  then show ?case
    by (cases "transaction (run ser body) st") (auto split: sum.splits)
next
  case (7 ser body st)
  from "7.prems" have u: "undisturbed ser body" by simp
  from "7.IH" [OF "7.prems"(1,2) u] show ?case
    by (cases "run ser body st") auto
qed

lemma scope_rolls_back_to_own_checkpoint:
  assumes inv: "txn_inv st" and u: "undisturbed ser body"
    and raised: "propagates ser body = Some e"
  shows "rows (sqlite_connection (snd (run_stmt ser (With_transaction body) st))) =
           rows (sqlite_connection st)"
proof -
  obtain st1 where enter: "txn_enter st = (None, st1)" and inv1: "txn_inv st1"
    and f1: "is_already_in_txn st1"
    and cp: "if is_already_in_txn st
             then txn_nesting_level st1 = Suc (txn_nesting_level st) \<and>
                  savepoints (sqlite_connection st1) =
                    rows (sqlite_connection st) # savepoints (sqlite_connection st)
             else txn_nesting_level st1 = 0 \<and>
                  txn_begin (sqlite_connection st1) = Some (rows (sqlite_connection st))"
    using inv
    by (auto simp: txn_inv_def txn_enter_def execute_def sql_savepoint_txn_def
          sql_begin_exclusive_def split: if_splits option.splits)
  obtain r st2 where b: "run ser body st1 = (r, st2)" by (cases "run ser body st1")
  from run_propagation(1) [OF inv1, of ser body] raised b
  have r: "r = Inl e" and s2: "same_scope st1 st2" by (auto simp: as_result_def)
  from undisturbed_checkpoints(1) [OF inv1 f1 u] b
  have k2: "same_checkpoints st1 st2" by simp
  show ?thesis
    using enter b r s2 k2 cp f1
    by (auto simp: transaction_def same_scope_def same_checkpoints_def txn_inv_def
          txn_rollback_def txn_finally_def execute_def sql_rollback_to_txn_def sql_rollback_def
          split: if_splits option.splits list.splits)
qed

section \<open>Queries by range and by prefix\<close>

lemmas query_defs = HappyStore_query_def query_def query_impl_def is_not_None_def
  ensure_execution_in_txn_def sql_select_ordered_def sql_limit_def open_store_def
  PassThroughSerializer_def


text \<open>
  Claim C5, at a store with the keys \<open>A\<close> and \<open>b\<close>. The query for the prefix \<open>a\<close> returns
  the entry of \<open>A\<close>, whose key does not start with \<open>a\<close> (\<^verbatim>\<open>LIKE\<close> ignores the case of
  ASCII letters); the query for the prefix \<open>_\<close> returns both entries, neither of whose
  keys starts with \<open>_\<close> (the character is a wildcard of \<^verbatim>\<open>LIKE\<close>).
\<close>

theorem prefix_query_matches_like:
  "fst (HappyStore_query PassThroughSerializer (Some ''a'') None None None False
          (open_store [(''A'', ''1''), (''b'', ''2'')])) = Inr [(''A'', ''1'')] \<and>
   fst (HappyStore_query PassThroughSerializer (Some ''_'') None None None False
          (open_store [(''A'', ''1''), (''b'', ''2'')])) = Inr [(''A'', ''1''), (''b'', ''2'')]"
  by (simp add: query_defs txn_defs ascii_lower_def)

section \<open>Scan\<close>



section \<open>Range queries with a bound\<close>







section \<open>Scan with a positive page size\<close>





end
